theory Spec2Isabelle
  imports Complex_Main
begin

section \<open>The IronCurtain Python adapter (ironcurtain\_client.py)\<close>

text \<open>
  The client drives an agent through matchmaking and play over two message channels.
  Its messages are decoded JSON documents, which Python holds as dynamically typed values;
  the model keeps them as such, so that every \<^verbatim>\<open>.get\<close> on a value that is not a
  mapping, every iteration over a value that cannot be iterated and every failed assertion
  is a branch that returns the exception.
\<close>

subsection \<open>JSON values as Python holds them\<close>

text \<open>
  \<open>JNull\<close> is Python's \<^verbatim>\<open>None\<close>. \<open>JObj\<close> is a \<^verbatim>\<open>dict\<close> in insertion order;
  the keys of a dict are distinct, and \<open>map_of\<close> reads the binding of a key.
\<close>

datatype json =
    JNull
  | JBool bool
  | JInt int
  | JFloat real
  | JStr string
  | JList "json list"
  | JObj "(string \<times> json) list"

text \<open>
  The exceptions the client can meet. \<open>NonException\<close> stands for the exceptions that do
  not derive from \<^verbatim>\<open>Exception\<close> (\<^verbatim>\<open>KeyboardInterrupt\<close>, \<^verbatim>\<open>SystemExit\<close>,
  \<^verbatim>\<open>CancelledError\<close>), which \<^verbatim>\<open>except Exception\<close> lets through.
\<close>

datatype exn =
    TimeoutError
  | ConnectionClosed
  | AttributeError
  | TypeError
  | AssertionError
  | RuntimeError
  | JSONDecodeError
  | OtherException string
  | NonException string

fun is_Exception :: "exn \<Rightarrow> bool" where
  "is_Exception (NonException _) = False"
| "is_Exception _ = True"

definition andThen :: "exn + 'a \<Rightarrow> ('a \<Rightarrow> exn + 'b) \<Rightarrow> exn + 'b" where
  "andThen m f = (case m of Inl e \<Rightarrow> Inl e | Inr x \<Rightarrow> f x)"

text \<open>\<^verbatim>\<open>v.get(k, d)\<close>: only a dict has the method.\<close>

fun py_get :: "json \<Rightarrow> string \<Rightarrow> json \<Rightarrow> exn + json" where
  "py_get (JObj kvs) k d = Inr (case map_of kvs k of Some v \<Rightarrow> v | None \<Rightarrow> d)"
| "py_get _ k d = Inl AttributeError"

text \<open>Truth value testing, as \<^verbatim>\<open>if v:\<close> and \<^verbatim>\<open>not v\<close> do it.\<close>

fun truthy :: "json \<Rightarrow> bool" where
  "truthy JNull = False"
| "truthy (JBool b) = b"
| "truthy (JInt i) = (i \<noteq> 0)"
| "truthy (JFloat r) = (r \<noteq> 0)"
| "truthy (JStr s) = (s \<noteq> [])"
| "truthy (JList xs) = (xs \<noteq> [])"
| "truthy (JObj kvs) = (kvs \<noteq> [])"

text \<open>
  The elements \<^verbatim>\<open>for x in v\<close> and \<^verbatim>\<open>tuple(v)\<close> run through: the items of a list, the
  characters of a string, the keys of a dict; any other value raises \<^verbatim>\<open>TypeError\<close>.
\<close>

fun py_iter :: "json \<Rightarrow> exn + json list" where
  "py_iter (JList xs) = Inr xs"
| "py_iter (JStr s) = Inr (map (\<lambda>c. JStr [c]) s)"
| "py_iter (JObj kvs) = Inr (map (\<lambda>kv. JStr (fst kv)) kvs)"
| "py_iter _ = Inl TypeError"

text \<open>\<^verbatim>\<open>len(v)\<close>.\<close>

fun py_len :: "json \<Rightarrow> exn + int" where
  "py_len (JList xs) = Inr (int (length xs))"
| "py_len (JStr s) = Inr (int (length s))"
| "py_len (JObj kvs) = Inr (int (length kvs))"
| "py_len _ = Inl TypeError"

subsection \<open>GameState\<close>

text \<open>
  The dataclass annotates its fields but checks nothing, so a field holds whatever the
  payload held. \<open>map_size\<close> is the tuple built from the payload's \<^verbatim>\<open>size\<close>.
\<close>

record GameState =
  tick :: json
  game_time :: json
  credits :: json
  power_generated :: json
  power_consumed :: json
  own_units :: json
  own_buildings :: json
  enemy_visible_units :: json
  enemy_visible_buildings :: json
  frozen_actors :: json
  explored_percentage :: json
  map_name :: json
  map_size :: "json list"
  known_ore_fields :: json

definition from_dict :: "json \<Rightarrow> exn + GameState" where
  "from_dict data =
     andThen (py_get data ''own'' (JObj [])) (\<lambda>own.
     andThen (py_get data ''enemy'' (JObj [])) (\<lambda>enemy.
     andThen (py_get data ''map'' (JObj [])) (\<lambda>map_info.
     andThen (py_get own ''power'' (JObj [])) (\<lambda>power.
     andThen (py_get data ''tick'' (JInt 0)) (\<lambda>v_tick.
     andThen (py_get data ''game_time'' (JStr ''0:00'')) (\<lambda>v_game_time.
     andThen (py_get own ''credits'' (JInt 0)) (\<lambda>v_credits.
     andThen (py_get power ''generated'' (JInt 0)) (\<lambda>v_generated.
     andThen (py_get power ''consumed'' (JInt 0)) (\<lambda>v_consumed.
     andThen (py_get own ''units'' (JList [])) (\<lambda>v_units.
     andThen (py_get own ''buildings'' (JList [])) (\<lambda>v_buildings.
     andThen (py_get enemy ''visible_units'' (JList [])) (\<lambda>v_enemy_units.
     andThen (py_get enemy ''visible_buildings'' (JList [])) (\<lambda>v_enemy_buildings.
     andThen (py_get enemy ''frozen_actors'' (JList [])) (\<lambda>v_frozen.
     andThen (py_get own ''explored_percentage'' (JInt 0)) (\<lambda>v_explored.
     andThen (py_get map_info ''name'' (JStr ''Unknown'')) (\<lambda>v_name.
     andThen (py_get map_info ''size'' (JList [JInt 128, JInt 128])) (\<lambda>v_size.
     andThen (py_iter v_size) (\<lambda>v_size_tuple.
     andThen (py_get map_info ''known_ore_fields'' (JList [])) (\<lambda>v_ore.
       Inr \<lparr> tick = v_tick, game_time = v_game_time, credits = v_credits,
             power_generated = v_generated, power_consumed = v_consumed,
             own_units = v_units, own_buildings = v_buildings,
             enemy_visible_units = v_enemy_units,
             enemy_visible_buildings = v_enemy_buildings,
             frozen_actors = v_frozen, explored_percentage = v_explored,
             map_name = v_name, map_size = v_size_tuple,
             known_ore_fields = v_ore \<rparr>)))))))))))))))))))"

definition unit_count :: "GameState \<Rightarrow> exn + int" where
  "unit_count g = py_len (own_units g)"

definition building_count :: "GameState \<Rightarrow> exn + int" where
  "building_count g = py_len (own_buildings g)"

subsection \<open>Credentials and match descriptor\<close>

record AgentCredentials =
  agent_id :: string
  name :: string
  api_key :: string
  elo :: int

text \<open>
  \<open>MatchInfo\<close> is filled from the pairing data without any check, so its fields are JSON
  values as well. Its field \<^verbatim>\<open>map_name\<close> is called \<open>match_map_name\<close> here, the name
  \<open>map_name\<close> being the one of \<open>GameState\<close>.
\<close>

record MatchInfo =
  match_id :: json
  match_map_name :: json
  faction :: json
  opponent :: json
  settings :: json

subsection \<open>The agent, its environment and what can be observed of a run\<close>

datatype level = DEBUG | INFO | WARNING | ERROR

text \<open>The two channels: \<^verbatim>\<open>/ws/queue\<close> and \<^verbatim>\<open>/ws/match/{match_id}/agent\<close>.\<close>

datatype endpoint = QueueChannel | MatchChannel json

text \<open>
  Every effect of the client is recorded, in order, as an event: connections, receives
  (\<open>Receive\<close> marks each \<^verbatim>\<open>ws.recv()\<close> awaited, whatever its outcome), messages sent,
  the queue-join request, sleeps, log records (the constant part of the message and the
  values formatted into it) and the calls of the strategy callback and of the hooks.
\<close>

datatype event =
    Connect endpoint
  | Close endpoint
  | Receive
  | Send json
  | HttpPost string
  | Sleep nat
  | Log level string "json list"
  | LogExn level string exn
  | Call_on_game_state GameState
  | Call_on_match_start MatchInfo
  | Call_on_match_end json
  | Call_on_violation json
  | Call_on_chat json json

text \<open>
  What a pending receive ends with: a text frame holding a JSON document, a text frame
  that \<^verbatim>\<open>json.loads\<close> rejects, or an exception (\<open>Fails TimeoutError\<close> is the receive
  timeout of \<^verbatim>\<open>asyncio.wait_for\<close>). The flag paired with it tells whether a stop
  signal was delivered while the receive was pending, in which case \<^verbatim>\<open>_shutdown\<close> has
  run by the time the receive ends. A connection is a finite script of such outcomes; when
  the script is used up the peer has closed the connection. Sending on an open connection
  succeeds.
\<close>

datatype frame = Text json | Garbled | Fails exn

type_synonym inbound = "bool \<times> frame"

datatype conn = Refused exn | Accepted "inbound list"

datatype http_reply = Status int | HttpFails exn

record agent =
  credentials :: "AgentCredentials option"
  match_info :: "MatchInfo option"
  game_state :: "GameState option"
  match_result :: "json option"
  matches_played :: int
  wins :: int
  losses :: int
  running :: bool
  auto_queue :: bool
  ws :: "endpoint option"

text \<open>
  The world is the agent together with the replies the arena will give (to successive
  queue-join requests and to successive connection attempts on either channel) and the
  trace of events so far.
\<close>

record world = agent +
  join_replies :: "http_reply list"
  queue_conns :: "conn list"
  match_conns :: "conn list"
  trace :: "event list"

text \<open>
  The strategy callback \<^verbatim>\<open>on_game_state\<close> is abstract in the source: a parameter here, a
  function of the snapshot that returns its list of orders or raises. It is taken to be
  the pure function its contract describes: it does not assign to the agent's attributes.
\<close>

type_synonym callback = "GameState \<Rightarrow> exn + json list"

datatype control = Continue | Break | Raise exn

definition emit :: "event \<Rightarrow> world \<Rightarrow> world" where
  "emit e w = w\<lparr>trace := trace w @ [e]\<rparr>"

definition shutdown :: "world \<Rightarrow> world" where
  "shutdown w = (emit (Log INFO ''Shutting down...'' []) w)\<lparr>running := False\<rparr>"

subsection \<open>The optional hooks, as the base class defines them\<close>

text \<open>
  Each hook is recorded as a call event, followed by what the body in the base class does,
  which is to log. \<^verbatim>\<open>on_violation\<close> iterates over its argument and so raises when that
  is not iterable.
\<close>

definition on_match_start :: "MatchInfo \<Rightarrow> world \<Rightarrow> world" where
  "on_match_start mi w =
     emit (Log INFO ''Match started'' [match_map_name mi, faction mi, opponent mi])
       (emit (Call_on_match_start mi) w)"

definition on_match_end :: "json \<Rightarrow> world \<Rightarrow> exn option \<times> world" where
  "on_match_end result w =
     (let w1 = emit (Call_on_match_end result) w in
      case py_get result ''result'' (JStr ''unknown'') of
        Inl e \<Rightarrow> (Some e, w1)
      | Inr outcome \<Rightarrow> (None, emit (Log INFO ''Match ended'' [outcome]) w1))"

definition on_violation :: "json \<Rightarrow> world \<Rightarrow> exn option \<times> world" where
  "on_violation violations w =
     (let w1 = emit (Call_on_violation violations) w in
      case py_iter violations of
        Inl e \<Rightarrow> (Some e, w1)
      | Inr vs \<Rightarrow> (None, foldl (\<lambda>w' v. emit (Log WARNING ''Order violation'' [v]) w') w1 vs))"

definition on_chat :: "json \<Rightarrow> json \<Rightarrow> world \<Rightarrow> world" where
  "on_chat sender message w =
     emit (Log DEBUG ''Chat'' [sender, message]) (emit (Call_on_chat sender message) w)"

subsection \<open>Messages the client sends\<close>

definition identify_msg :: "AgentCredentials \<Rightarrow> json" where
  "identify_msg c = JObj [(''type'', JStr ''identify''), (''agent_id'', JStr (agent_id c))]"

definition get_state_msg :: "AgentCredentials \<Rightarrow> json" where
  "get_state_msg c = JObj [(''type'', JStr ''get_state''), (''agent_id'', JStr (agent_id c))]"

definition orders_msg :: "AgentCredentials \<Rightarrow> json list \<Rightarrow> json" where
  "orders_msg c orders =
     JObj [(''type'', JStr ''orders''), (''agent_id'', JStr (agent_id c)),
           (''orders'', JList orders)]"

subsection \<open>Handling one match message\<close>

definition handle_match_message :: "callback \<Rightarrow> json \<Rightarrow> world \<Rightarrow> exn option \<times> world" where
  "handle_match_message cb msg w =
     (case credentials w of
        None \<Rightarrow> (Some AssertionError, w)
      | Some c \<Rightarrow>
     (case py_get msg ''type'' (JStr []) of
        Inl e \<Rightarrow> (Some e, w)
      | Inr msg_type \<Rightarrow>
          if msg_type = JStr ''state_update'' \<or> msg_type = JStr ''state_response'' then
            (case py_get msg ''state'' (JObj []) of
               Inl e \<Rightarrow> (Some e, w)
             | Inr state_data \<Rightarrow>
            (case from_dict state_data of
               Inl e \<Rightarrow> (Some e, w)
             | Inr gs \<Rightarrow>
                 (let w1 = emit (Call_on_game_state gs) (w\<lparr>game_state := Some gs\<rparr>) in
                  case cb gs of
                    Inl e \<Rightarrow> (Some e, w1)
                  | Inr orders \<Rightarrow>
                      if orders \<noteq> [] then (None, emit (Send (orders_msg c orders)) w1)
                      else (None, w1))))
          else if msg_type = JStr ''game_end'' then
            (case py_get msg ''result'' (JStr ''unknown'') of
               Inl e \<Rightarrow> (Some e, w)
             | Inr result \<Rightarrow>
                 (let w1 = w\<lparr>match_result := Some msg\<rparr>;
                      w2 = (if result = JStr ''victory'' then w1\<lparr>wins := wins w1 + 1\<rparr>
                            else if result = JStr ''defeat'' then w1\<lparr>losses := losses w1 + 1\<rparr>
                            else w1)
                  in on_match_end msg w2))
          else if msg_type = JStr ''order_violations'' then
            (case py_get msg ''violations'' (JList []) of
               Inl e \<Rightarrow> (Some e, w)
             | Inr violations \<Rightarrow> on_violation violations w)
          else if msg_type = JStr ''chat'' then
            (case py_get msg ''from'' (JStr ''?'') of
               Inl e \<Rightarrow> (Some e, w)
             | Inr sender \<Rightarrow>
            (case py_get msg ''message'' (JStr []) of
               Inl e \<Rightarrow> (Some e, w)
             | Inr message \<Rightarrow> (None, on_chat sender message w)))
          else if msg_type = JStr ''connected'' \<or> msg_type = JStr ''game_start'' then
            (None, emit (Log DEBUG ''Match event'' [msg_type]) w)
          else (None, w)))"

subsection \<open>The match session\<close>

text \<open>
  One receive with its decoding: \<^verbatim>\<open>raw = await asyncio.wait_for(ws.recv(), timeout=30)\<close>
  and \<^verbatim>\<open>msg = json.loads(raw)\<close>. \<open>await_recv\<close> is the world when the receive ends:
  the receive is recorded, and \<^verbatim>\<open>_shutdown\<close> has run if a stop signal came in.
\<close>

definition await_recv :: "bool \<Rightarrow> world \<Rightarrow> world" where
  "await_recv sg w = (let w1 = emit Receive w in if sg then shutdown w1 else w1)"

definition recv_json :: "inbound \<Rightarrow> world \<Rightarrow> (exn + json) \<times> world" where
  "recv_json x w =
     (let w1 = await_recv (fst x) w
      in case snd x of
           Text msg \<Rightarrow> (Inr msg, w1)
         | Garbled \<Rightarrow> (Inl JSONDecodeError, w1)
         | Fails e \<Rightarrow> (Inl e, w1))"

text \<open>The handler \<^verbatim>\<open>except asyncio.TimeoutError\<close> of the game loop.\<close>

definition match_except :: "exn \<Rightarrow> world \<Rightarrow> control \<times> world" where
  "match_except e w =
     (if e = TimeoutError then
        (case credentials w of
           None \<Rightarrow> (Raise AttributeError, w)
         | Some c \<Rightarrow> (Continue, emit (Send (get_state_msg c)) w))
      else (Raise e, w))"

text \<open>One iteration of the game loop: the \<^verbatim>\<open>try\<close> body and its handler.\<close>

definition match_iteration :: "callback \<Rightarrow> inbound \<Rightarrow> world \<Rightarrow> control \<times> world" where
  "match_iteration cb x w =
     (case recv_json x w of
        (Inl e, w1) \<Rightarrow> match_except e w1
      | (Inr msg, w1) \<Rightarrow>
     (case handle_match_message cb msg w1 of
        (Some e, w2) \<Rightarrow> match_except e w2
      | (None, w2) \<Rightarrow>
     (case py_get msg ''type'' JNull of
        Inl e \<Rightarrow> match_except e w2
      | Inr t \<Rightarrow> if t = JStr ''game_end'' then (Break, w2) else (Continue, w2))))"

text \<open>
  \<^verbatim>\<open>while self._running:\<close> over the frames of the connection. A receive on the used-up
  script raises \<^verbatim>\<open>ConnectionClosed\<close>, which the inner handler does not catch.
\<close>

fun game_loop :: "callback \<Rightarrow> inbound list \<Rightarrow> world \<Rightarrow> exn option \<times> world" where
  "game_loop cb [] w =
     (if \<not> running w then (None, w) else (Some ConnectionClosed, emit Receive w))"
| "game_loop cb (x # rest) w =
     (if \<not> running w then (None, w)
      else (case match_iteration cb x w of
              (Continue, w') \<Rightarrow> game_loop cb rest w'
            | (Break, w') \<Rightarrow> (None, w')
            | (Raise e, w') \<Rightarrow> (Some e, w')))"

text \<open>The player loop of \<^verbatim>\<open>_play_match\<close>: our own entry and the opponent's name.\<close>

fun find_players :: "string \<Rightarrow> json list \<Rightarrow> json \<times> json \<Rightarrow> exn + json \<times> json" where
  "find_players aid [] acc = Inr acc"
| "find_players aid (p # ps) acc =
     (case py_get p ''agent_id'' JNull of
        Inl e \<Rightarrow> Inl e
      | Inr a \<Rightarrow>
          if a = JStr aid then find_players aid ps (p, snd acc)
          else (case py_get p ''agent_name'' (JStr ''Unknown'') of
                  Inl e \<Rightarrow> Inl e
                | Inr n \<Rightarrow> find_players aid ps (fst acc, n)))"

definition extract_match_info :: "AgentCredentials \<Rightarrow> json \<Rightarrow> exn + MatchInfo" where
  "extract_match_info c match_data =
     andThen (py_get match_data ''id'' (JStr ''unknown'')) (\<lambda>v_id.
     andThen (py_get match_data ''players'' (JList [])) (\<lambda>players.
     andThen (py_get match_data ''map'' (JStr ''Unknown'')) (\<lambda>v_map.
     andThen (py_iter players) (\<lambda>ps.
     andThen (find_players (agent_id c) ps (JNull, JStr ''Unknown'')) (\<lambda>found.
     andThen (if truthy (fst found) then py_get (fst found) ''faction'' (JStr ''random'')
              else Inr (JStr ''random'')) (\<lambda>v_faction.
     andThen (py_get match_data ''settings'' (JObj [])) (\<lambda>v_settings.
       Inr \<lparr> match_id = v_id, match_map_name = v_map, faction = v_faction,
             opponent = snd found, settings = v_settings \<rparr>)))))))"

text \<open>
  The \<^verbatim>\<open>async with websockets.connect(uri) as ws:\<close> block of \<^verbatim>\<open>_play_match\<close>: connect,
  identify, run the game loop; the connection is closed when the block is left.
\<close>

definition match_connection :: "callback \<Rightarrow> json \<Rightarrow> world \<Rightarrow> exn option \<times> world" where
  "match_connection cb mid w =
     (let w1 = emit (Connect (MatchChannel mid)) w in
      case match_conns w1 of
        [] \<Rightarrow> (Some (OtherException ''ConnectionRefusedError''), w1)
      | Refused e # cs \<Rightarrow> (Some e, w1\<lparr>match_conns := cs\<rparr>)
      | Accepted inbox # cs \<Rightarrow>
          (let w2 = w1\<lparr>match_conns := cs, ws := Some (MatchChannel mid)\<rparr> in
           case credentials w2 of
             None \<Rightarrow> (Some AttributeError, emit (Close (MatchChannel mid)) w2)
           | Some c \<Rightarrow>
               (case game_loop cb inbox (emit (Send (identify_msg c)) w2) of
                  (r, w3) \<Rightarrow> (r, emit (Close (MatchChannel mid)) w3))))"

definition play_match :: "callback \<Rightarrow> json \<Rightarrow> world \<Rightarrow> exn option \<times> world" where
  "play_match cb match_data w =
     (case credentials w of
        None \<Rightarrow> (Some AssertionError, w)
      | Some c \<Rightarrow>
     (case extract_match_info c match_data of
        Inl e \<Rightarrow> (Some e, w)
      | Inr mi \<Rightarrow>
          (let w1 = on_match_start mi (w\<lparr>match_info := Some mi\<rparr>) in
           case match_connection cb (match_id mi) w1 of
             (None, w2) \<Rightarrow> (None, w2\<lparr>ws := None\<rparr>)
           | (Some e, w2) \<Rightarrow>
               if e = ConnectionClosed then
                 (None, (emit (Log WARNING ''Match connection closed'' []) w2)\<lparr>ws := None\<rparr>)
               else if is_Exception e then
                 (None, (emit (LogExn ERROR ''Match error'' e) w2)\<lparr>ws := None\<rparr>)
               else (Some e, w2\<lparr>ws := None\<rparr>))))"

subsection \<open>The queue session\<close>

text \<open>
  One iteration of the waiting loop of \<^verbatim>\<open>_wait_for_match\<close>. \<open>Inr (Some v)\<close> is
  \<^verbatim>\<open>return v\<close> (with \<open>JNull\<close> for \<^verbatim>\<open>None\<close>), \<open>Inr None\<close> goes on to the next
  iteration, \<open>Inl e\<close> is an exception that the inner handler does not catch.
\<close>

definition queue_except :: "exn \<Rightarrow> world \<Rightarrow> (exn + json option) \<times> world" where
  "queue_except e w = (if e = TimeoutError then (Inr None, w) else (Inl e, w))"

definition queue_iteration :: "inbound \<Rightarrow> world \<Rightarrow> (exn + json option) \<times> world" where
  "queue_iteration x w =
     (case recv_json x w of
        (Inl e, w1) \<Rightarrow> queue_except e w1
      | (Inr msg, w1) \<Rightarrow>
     (case py_get msg ''event'' JNull of
        Inl e \<Rightarrow> queue_except e w1
      | Inr ev \<Rightarrow>
          if ev = JStr ''match_found'' then
            (let w2 = emit (Log INFO ''Match found!'' []) w1 in
             case py_get msg ''data'' (JObj []) of
               Inl e \<Rightarrow> queue_except e w2
             | Inr d \<Rightarrow> (Inr (Some d), w2))
          else if ev = JStr ''queue_timeout'' then
            (Inr (Some JNull), emit (Log INFO ''Queue timeout. Re-queuing...'' []) w1)
          else
            (case py_get msg ''type'' JNull of
               Inl e \<Rightarrow> queue_except e w1
             | Inr t \<Rightarrow>
                 if t = JStr ''identified''
                 then (Inr None, emit (Log DEBUG ''Queue connection identified'' []) w1)
                 else (Inr None, w1))))"




subsection \<open>The lifecycle loop\<close>





section \<open>Notions used in the statements\<close>

subsection \<open>Reading a payload\<close>

text \<open>
  Reading a payload \<open>d\<close>: \<open>get_or d k v\<close> is the entry under \<open>k\<close>, or \<open>v\<close> when there is
  none; \<open>sub_dict d k\<close> is the mapping under \<open>k\<close> (empty when there is none);
  \<open>absent_or_dict d k\<close> says that \<open>d\<close> holds nothing or a mapping under \<open>k\<close>.
\<close>

definition get_or :: "(string \<times> json) list \<Rightarrow> string \<Rightarrow> json \<Rightarrow> json" where
  "get_or d k dflt = (case map_of d k of Some v \<Rightarrow> v | None \<Rightarrow> dflt)"

definition sub_dict :: "(string \<times> json) list \<Rightarrow> string \<Rightarrow> (string \<times> json) list" where
  "sub_dict d k = (case map_of d k of Some (JObj kvs) \<Rightarrow> kvs | _ \<Rightarrow> [])"

definition absent_or_dict :: "(string \<times> json) list \<Rightarrow> string \<Rightarrow> bool" where
  "absent_or_dict d k =
     (case map_of d k of None \<Rightarrow> True | Some (JObj kvs) \<Rightarrow> True | Some _ \<Rightarrow> False)"


subsection \<open>Traces and loop states\<close>

text \<open>
  Input and output on a channel are the \<open>Receive\<close> and \<open>Send\<close> events; a list of events
  is quiet when it holds neither.
\<close>

fun is_io :: "event \<Rightarrow> bool" where
  "is_io Receive = True"
| "is_io (Send m) = True"
| "is_io _ = False"

definition quiet :: "event list \<Rightarrow> bool" where
  "quiet evs = list_all (\<lambda>e. \<not> is_io e) evs"

text \<open>
  \<open>sends_spaced sent evs\<close>: in \<open>evs\<close> no two messages are sent without a receive between
  them; \<open>sent\<close> tells whether a message has been sent since the last receive before
  \<open>evs\<close>.
\<close>

fun sends_spaced :: "bool \<Rightarrow> event list \<Rightarrow> bool" where
  "sends_spaced sent [] = True"
| "sends_spaced sent (Receive # es) = sends_spaced False es"
| "sends_spaced sent (Send m # es) = (\<not> sent \<and> sends_spaced True es)"
| "sends_spaced sent (e # es) = sends_spaced sent es"





text \<open>
  The agent as \<^verbatim>\<open>__init__\<close> leaves it, with credentials if both an API key and an
  agent id are given (one that is not given is the empty string here), in a world with the
  given replies of the arena and an empty trace.
\<close>

definition new_world ::
  "string \<Rightarrow> string \<Rightarrow> string \<Rightarrow> bool \<Rightarrow> http_reply list \<Rightarrow> conn list \<Rightarrow> conn list \<Rightarrow> world" where
  "new_world nm key aid auto joins qs ms =
     \<lparr> credentials = (if key \<noteq> [] \<and> aid \<noteq> []
                        then Some \<lparr> agent_id = aid, name = nm, api_key = key, elo = 1200 \<rparr>
                        else None),
       match_info = None, game_state = None, match_result = None,
       matches_played = 0, wins = 0, losses = 0, running = True, auto_queue = auto,
       ws = None, join_replies = joins, queue_conns = qs, match_conns = ms, trace = [] \<rparr>"


text \<open>\<open>extends w w'\<close>: the trace of \<open>w'\<close> continues the trace of \<open>w\<close>.\<close>

definition extends :: "world \<Rightarrow> world \<Rightarrow> bool" where
  "extends w w' = (\<exists>evs. trace w' = trace w @ evs)"

text \<open>The queue message of scenario B and the pairing data it carries.\<close>

definition scenario_B_data :: json where
  "scenario_B_data =
     JObj [(''id'', JStr ''m1''),
           (''players'', JList [JObj [(''agent_id'', JStr ''a1''), (''faction'', JStr ''soviet'')],
                                JObj [(''agent_id'', JStr ''a2''), (''agent_name'', JStr ''Foe'')]]),
           (''map'', JStr ''Tundra'')]"

definition scenario_B_msg :: json where
  "scenario_B_msg = JObj [(''event'', JStr ''match_found''), (''data'', scenario_B_data)]"

section \<open>Properties\<close>

subsection \<open>Parsing a state payload\<close>

lemma py_get_obj: "py_get (JObj d) k dflt = Inr (get_or d k dflt)"
  by (simp add: get_or_def)

lemma get_or_sub: "absent_or_dict d k \<Longrightarrow> get_or d k (JObj []) = JObj (sub_dict d k)"
  by (auto simp: absent_or_dict_def get_or_def sub_dict_def split: option.splits json.splits)

lemma andThen_Inr: "andThen (Inr x) f = f x"
  by (simp add: andThen_def)

lemma from_dict_shaped:
  assumes "absent_or_dict d ''own''" and "absent_or_dict d ''enemy''"
    and "absent_or_dict d ''map''" and "absent_or_dict (sub_dict d ''own'') ''power''"
    and "py_iter (get_or (sub_dict d ''map'') ''size'' (JList [JInt 128, JInt 128])) = Inr sz"
  shows "from_dict (JObj d) =
     Inr \<lparr> tick = get_or d ''tick'' (JInt 0),
           game_time = get_or d ''game_time'' (JStr ''0:00''),
           credits = get_or (sub_dict d ''own'') ''credits'' (JInt 0),
           power_generated =
             get_or (sub_dict (sub_dict d ''own'') ''power'') ''generated'' (JInt 0),
           power_consumed =
             get_or (sub_dict (sub_dict d ''own'') ''power'') ''consumed'' (JInt 0),
           own_units = get_or (sub_dict d ''own'') ''units'' (JList []),
           own_buildings = get_or (sub_dict d ''own'') ''buildings'' (JList []),
           enemy_visible_units = get_or (sub_dict d ''enemy'') ''visible_units'' (JList []),
           enemy_visible_buildings =
             get_or (sub_dict d ''enemy'') ''visible_buildings'' (JList []),
           frozen_actors = get_or (sub_dict d ''enemy'') ''frozen_actors'' (JList []),
           explored_percentage = get_or (sub_dict d ''own'') ''explored_percentage'' (JInt 0),
           map_name = get_or (sub_dict d ''map'') ''name'' (JStr ''Unknown''),
           map_size = sz,
           known_ore_fields = get_or (sub_dict d ''map'') ''known_ore_fields'' (JList []) \<rparr>"
  using assms unfolding from_dict_def
  by (simp only: py_get_obj get_or_sub andThen_Inr)

text \<open>
  C10, as stated: \<^verbatim>\<open>GameState.from_dict\<close> succeeds on every dict. It does not: on the
  dict \<^verbatim>\<open>{"own": null}\<close> the lookup \<^verbatim>\<open>own.get("power", {})\<close> is made on
  \<^verbatim>\<open>None\<close> and raises \<^verbatim>\<open>AttributeError\<close>.
\<close>

theorem from_dict_not_total:
  "from_dict (JObj [(''own'', JNull)]) = Inl AttributeError"
  by (simp add: from_dict_def andThen_def)

text \<open>
  C10, amended: \<^verbatim>\<open>GameState.from_dict\<close> succeeds on every dict in which each of
  \<^verbatim>\<open>own\<close>, \<^verbatim>\<open>enemy\<close>, \<^verbatim>\<open>map\<close> and \<^verbatim>\<open>own.power\<close> is absent or a mapping and
  \<^verbatim>\<open>map.size\<close> is absent or can be iterated. Each field of the result is the payload's
  entry when there is one and otherwise its default: tick 0, game\_time "0:00", credits 0,
  power 0/0, empty unit, building, actor and ore-field lists, explored\_percentage 0,
  map\_name "Unknown", map\_size (128, 128).
\<close>

theorem from_dict_defaults:
  assumes "absent_or_dict d ''own''" and "absent_or_dict d ''enemy''"
    and "absent_or_dict d ''map''" and "absent_or_dict (sub_dict d ''own'') ''power''"
    and "py_iter (get_or (sub_dict d ''map'') ''size'' (JList [JInt 128, JInt 128])) = Inr sz"
  shows "from_dict (JObj d) =
     Inr \<lparr> tick = get_or d ''tick'' (JInt 0),
           game_time = get_or d ''game_time'' (JStr ''0:00''),
           credits = get_or (sub_dict d ''own'') ''credits'' (JInt 0),
           power_generated =
             get_or (sub_dict (sub_dict d ''own'') ''power'') ''generated'' (JInt 0),
           power_consumed =
             get_or (sub_dict (sub_dict d ''own'') ''power'') ''consumed'' (JInt 0),
           own_units = get_or (sub_dict d ''own'') ''units'' (JList []),
           own_buildings = get_or (sub_dict d ''own'') ''buildings'' (JList []),
           enemy_visible_units = get_or (sub_dict d ''enemy'') ''visible_units'' (JList []),
           enemy_visible_buildings =
             get_or (sub_dict d ''enemy'') ''visible_buildings'' (JList []),
           frozen_actors = get_or (sub_dict d ''enemy'') ''frozen_actors'' (JList []),
           explored_percentage = get_or (sub_dict d ''own'') ''explored_percentage'' (JInt 0),
           map_name = get_or (sub_dict d ''map'') ''name'' (JStr ''Unknown''),
           map_size = sz,
           known_ore_fields = get_or (sub_dict d ''map'') ''known_ore_fields'' (JList []) \<rparr>"
  using assms by (rule from_dict_shaped)

text \<open>On the empty dict every field takes its default.\<close>

theorem from_dict_defaults_witness:
  "absent_or_dict [] ''own'' \<and> absent_or_dict [] ''enemy'' \<and> absent_or_dict [] ''map''
   \<and> absent_or_dict (sub_dict [] ''own'') ''power''
   \<and> py_iter (get_or (sub_dict [] ''map'') ''size'' (JList [JInt 128, JInt 128]))
       = Inr [JInt 128, JInt 128]
   \<and> from_dict (JObj []) =
     Inr \<lparr> tick = JInt 0, game_time = JStr ''0:00'', credits = JInt 0,
           power_generated = JInt 0, power_consumed = JInt 0,
           own_units = JList [], own_buildings = JList [],
           enemy_visible_units = JList [], enemy_visible_buildings = JList [],
           frozen_actors = JList [], explored_percentage = JInt 0,
           map_name = JStr ''Unknown'', map_size = [JInt 128, JInt 128],
           known_ore_fields = JList [] \<rparr>"
  using from_dict_defaults [of "[]" "[JInt 128, JInt 128]"]
  by (simp add: absent_or_dict_def sub_dict_def get_or_def)

text \<open>
  C3: for a state payload whose \<^verbatim>\<open>own\<close> section holds a list of units and a list of
  buildings (and which is otherwise well shaped, so that it parses), \<^verbatim>\<open>from_dict\<close>
  succeeds and \<^verbatim>\<open>unit_count\<close> and \<^verbatim>\<open>building_count\<close> of the result are the lengths
  of these two lists.
\<close>

theorem counts_round_trip:
  assumes "map_of d ''own'' = Some (JObj own)"
    and "map_of own ''units'' = Some (JList us)"
    and "map_of own ''buildings'' = Some (JList bs)"
    and "absent_or_dict own ''power''"
    and "absent_or_dict d ''enemy''" and "absent_or_dict d ''map''"
    and "py_iter (get_or (sub_dict d ''map'') ''size'' (JList [JInt 128, JInt 128])) = Inr sz"
  shows "\<exists>g. from_dict (JObj d) = Inr g
           \<and> unit_count g = Inr (int (length us))
           \<and> building_count g = Inr (int (length bs))"
proof -
  from assms(1) have own: "absent_or_dict d ''own''" and sub: "sub_dict d ''own'' = own"
    by (simp_all add: absent_or_dict_def sub_dict_def)
  from assms(4) sub have pw: "absent_or_dict (sub_dict d ''own'') ''power''"
    by simp
  note parsed = from_dict_shaped [OF own assms(5) assms(6) pw assms(7)]
  have "get_or own ''units'' (JList []) = JList us"
    and "get_or own ''buildings'' (JList []) = JList bs"
    using assms(2,3) by (simp_all add: get_or_def)
  then show ?thesis
    unfolding parsed by (simp add: unit_count_def building_count_def sub)
qed

theorem counts_round_trip_witness:
  "\<exists>g. from_dict (JObj [(''tick'', JInt 7),
          (''own'', JObj [(''credits'', JInt 500),
             (''units'', JList [JObj [(''id'', JInt 1)], JObj [(''id'', JInt 2)]]),
             (''buildings'', JList [JObj [(''id'', JInt 9)]])])]) = Inr g
       \<and> unit_count g = Inr 2 \<and> building_count g = Inr 1"
  using counts_round_trip [of
      "[(''tick'', JInt 7),
        (''own'', JObj [(''credits'', JInt 500),
           (''units'', JList [JObj [(''id'', JInt 1)], JObj [(''id'', JInt 2)]]),
           (''buildings'', JList [JObj [(''id'', JInt 9)]])])]"
      "[(''credits'', JInt 500),
        (''units'', JList [JObj [(''id'', JInt 1)], JObj [(''id'', JInt 2)]]),
        (''buildings'', JList [JObj [(''id'', JInt 9)]])]"
      "[JObj [(''id'', JInt 1)], JObj [(''id'', JInt 2)]]"
      "[JObj [(''id'', JInt 9)]]"
      "[JInt 128, JInt 128]"]
  by (simp add: absent_or_dict_def sub_dict_def get_or_def)

subsection \<open>The events of one match message\<close>

lemma trace_emit: "trace (emit e w) = trace w @ [e]"
  by (simp add: emit_def)

lemma foldl_emit_eq:
  "foldl (\<lambda>w' v. emit (f v) w') w vs = w\<lparr>trace := trace w @ map f vs\<rparr>"
  by (induction vs arbitrary: w) (simp_all add: emit_def)

lemma sends_spaced_quiet: "quiet q \<Longrightarrow> sends_spaced b (q @ es) = sends_spaced b es"
proof (induction q)
  case Nil
  show ?case by simp
next
  case (Cons e q)
  then have "quiet q" and "\<not> is_io e" by (simp_all add: quiet_def)
  with Cons.IH show ?case by (cases e) simp_all
qed

lemma sends_spaced_weaken: "sends_spaced True es \<Longrightarrow> sends_spaced b es"
proof (induction es)
  case Nil
  show ?case by simp
next
  case (Cons e es)
  then show ?case by (cases e) simp_all
qed

lemma on_violation_trace:
  "on_violation v w = (r, w') \<Longrightarrow> \<exists>q. trace w' = trace w @ q \<and> quiet q"
  by (auto simp: on_violation_def Let_def trace_emit foldl_emit_eq quiet_def list_all_iff
      split: sum.splits)

lemma on_match_end_trace:
  "on_match_end v w = (r, w') \<Longrightarrow> \<exists>q. trace w' = trace w @ q \<and> quiet q"
  by (auto simp: on_match_end_def Let_def trace_emit quiet_def split: sum.splits)

lemma handle_not_dict:
  "\<forall>d. msg \<noteq> JObj d \<Longrightarrow> handle_match_message cb msg w
     = (case credentials w of None \<Rightarrow> (Some AssertionError, w) | Some c \<Rightarrow> (Some AttributeError, w))"
  by (cases msg) (simp_all add: handle_match_message_def split: option.splits)

lemma handle_state:
  assumes "credentials w = Some c" and "map_of d ''type'' = Some (JStr t)"
    and "t = ''state_update'' \<or> t = ''state_response''"
    and "from_dict (get_or d ''state'' (JObj [])) = Inr gs"
  shows "handle_match_message cb (JObj d) w =
     (case cb gs of
        Inl e \<Rightarrow> (Some e, w\<lparr>game_state := Some gs, trace := trace w @ [Call_on_game_state gs]\<rparr>)
      | Inr orders \<Rightarrow>
          (None, w\<lparr>game_state := Some gs,
                   trace := trace w @ Call_on_game_state gs
                      # (if orders \<noteq> [] then [Send (orders_msg c orders)] else [])\<rparr>))"
  using assms
  by (auto simp: handle_match_message_def get_or_def emit_def Let_def split: sum.splits)

lemma handle_trace:
  assumes "handle_match_message cb msg w = (r, w')"
  shows "\<exists>q s. trace w' = trace w @ q @ s \<and> quiet q
            \<and> (s = [] \<or> (\<exists>m. s = [Send m] \<and> r = None))"
proof -
  have same: "w' = w \<Longrightarrow> ?thesis"
    by (intro exI [of _ "[]"]) (simp add: quiet_def)
  have hook: "\<And>q. quiet q \<Longrightarrow> trace w' = trace w @ q \<Longrightarrow> ?thesis"
    by (intro exI [of _ "[]"] exI) auto
  show ?thesis
  proof (cases "credentials w")
    case None
    with assms show ?thesis using same by (simp add: handle_match_message_def)
  next
    case (Some c)
    show ?thesis
    proof (cases "\<exists>d. msg = JObj d")
      case False
      with assms Some show ?thesis using same by (simp add: handle_not_dict)
    next
      case True
      then obtain d where msg: "msg = JObj d" by blast
      define ty where "ty = get_or d ''type'' (JStr [])"
      consider (state) "ty = JStr ''state_update'' \<or> ty = JStr ''state_response''"
        | (gend) "ty = JStr ''game_end''"
        | (viol) "ty = JStr ''order_violations''"
        | (chat) "ty = JStr ''chat''"
        | (other) "ty \<noteq> JStr ''state_update''" "ty \<noteq> JStr ''state_response''"
            "ty \<noteq> JStr ''game_end''" "ty \<noteq> JStr ''order_violations''" "ty \<noteq> JStr ''chat''"
        by blast
      then show ?thesis
      proof cases
        case state
        then obtain t where t: "map_of d ''type'' = Some (JStr t)"
            "t = ''state_update'' \<or> t = ''state_response''"
          by (auto simp: ty_def get_or_def split: option.splits)
        show ?thesis
        proof (cases "from_dict (get_or d ''state'' (JObj []))")
          case (Inl e)
          with assms Some msg t have "w' = w"
            by (auto simp: handle_match_message_def get_or_def)
          then show ?thesis by (rule same)
        next
          case gs: (Inr gs)
          note eq = handle_state [OF Some t gs, of cb]
          show ?thesis
          proof (cases "cb gs")
            case (Inl e)
            with assms eq msg have "trace w' = trace w @ [Call_on_game_state gs]"
              by auto
            then show ?thesis
              by (intro hook [of "[Call_on_game_state gs]"]) (simp_all add: quiet_def)
          next
            case orders: (Inr orders)
            with assms eq msg
            have "trace w' = trace w @ [Call_on_game_state gs]
                    @ (if orders \<noteq> [] then [Send (orders_msg c orders)] else [])"
              and "r = None"
              by auto
            then show ?thesis
              by (intro exI [of _ "[Call_on_game_state gs]"]
                  exI [of _ "if orders \<noteq> [] then [Send (orders_msg c orders)] else []"])
                (simp add: quiet_def)
          qed
        qed
      next
        case gend
        with assms Some msg obtain u where "on_match_end msg u = (r, w')" and "trace u = trace w"
          by (auto simp: handle_match_message_def Let_def ty_def get_or_def split: if_splits)
        then show ?thesis using on_match_end_trace hook by metis
      next
        case viol
        with assms Some msg obtain v where "on_violation v w = (r, w')"
          by (auto simp: handle_match_message_def Let_def ty_def get_or_def split: if_splits)
        then show ?thesis using on_violation_trace hook by metis
      next
        case chat
        with assms Some msg have "\<exists>q. quiet q \<and> trace w' = trace w @ q"
          by (auto simp: handle_match_message_def on_chat_def trace_emit quiet_def
              ty_def get_or_def)
        then show ?thesis using hook by blast
      next
        case other
        with assms Some msg have "\<exists>q. quiet q \<and> trace w' = trace w @ q"
          by (auto simp: handle_match_message_def trace_emit quiet_def ty_def get_or_def
              split: if_splits)
        then show ?thesis using hook by blast
      qed
    qed
  qed
qed

subsection \<open>The events of the game loop\<close>

lemma await_recv_trace: "\<exists>q. trace (await_recv sg w) = trace w @ Receive # q \<and> quiet q"
  by (simp add: await_recv_def shutdown_def emit_def quiet_def Let_def)

lemma await_recv_credentials: "credentials (await_recv sg w) = credentials w"
  by (simp add: await_recv_def shutdown_def emit_def Let_def)

lemma py_get_Inl: "py_get v k d = Inl e \<Longrightarrow> e = AttributeError"
  by (cases v) simp_all

lemma match_except_trace:
  "match_except e w = (r, w') \<Longrightarrow>
     (\<exists>m. trace w' = trace w @ [Send m]) \<or> (trace w' = trace w \<and> r \<noteq> Continue)"
  by (auto simp: match_except_def trace_emit split: if_splits option.splits)

lemma iteration_trace:
  assumes "match_iteration cb x w = (r, w')"
  shows "\<exists>q s. trace w' = trace w @ Receive # q @ s \<and> quiet q
            \<and> (s = [] \<or> (\<exists>m. s = [Send m]))"
proof -
  let ?G = ?thesis
  have shape: "\<And>q s. trace w' = trace w @ Receive # q @ s \<Longrightarrow> quiet q \<Longrightarrow>
      s = [] \<or> (\<exists>m. s = [Send m]) \<Longrightarrow> ?thesis"
    by blast
  have after: "\<And>e u q. match_except e u = (r, w') \<Longrightarrow> trace u = trace w @ Receive # q \<Longrightarrow>
      quiet q \<Longrightarrow> ?G"
  proof -
    fix e u q
    assume ex: "match_except e u = (r, w')" and u: "trace u = trace w @ Receive # q"
      and q: "quiet q"
    from match_except_trace [OF ex] show ?G
    proof
      assume "\<exists>m. trace w' = trace u @ [Send m]"
      then obtain m where "trace w' = trace w @ Receive # q @ [Send m]" using u by auto
      then show ?G using q by (rule shape) simp
    next
      assume "trace w' = trace u \<and> r \<noteq> Continue"
      then have "trace w' = trace w @ Receive # q @ []" using u by simp
      then show ?G using q by (rule shape) simp
    qed
  qed
  obtain q0 where q0: "trace (await_recv (fst x) w) = trace w @ Receive # q0" "quiet q0"
    using await_recv_trace by blast
  show ?thesis
  proof (cases "recv_json x w")
    case (Pair res w1)
    then have w1: "w1 = await_recv (fst x) w"
      by (auto simp: recv_json_def Let_def split: frame.splits)
    show ?thesis
    proof (cases res)
      case (Inl e)
      with assms Pair have "match_except e w1 = (r, w')"
        by (simp add: match_iteration_def)
      then show ?thesis using q0 w1 by (intro after [of e w1 q0]) simp_all
    next
      case (Inr msg)
      obtain r2 w2 where h: "handle_match_message cb msg w1 = (r2, w2)"
        by (cases "handle_match_message cb msg w1")
      from handle_trace [OF h] obtain q s where
        qs: "trace w2 = trace w1 @ q @ s" "quiet q" "s = [] \<or> (\<exists>m. s = [Send m] \<and> r2 = None)"
        by blast
      have qq: "quiet (q0 @ q)" using q0 qs by (simp add: quiet_def)
      show ?thesis
      proof (cases r2)
        case None
        with assms Pair Inr h have "w' = w2"
          by (auto simp: match_iteration_def match_except_def dest: py_get_Inl
              split: sum.splits if_splits option.splits)
        with qs q0 w1 have "trace w' = trace w @ Receive # (q0 @ q) @ s" by simp
        moreover from qs(3) have "s = [] \<or> (\<exists>m. s = [Send m])" by auto
        ultimately show ?thesis using qq by (intro shape [of "q0 @ q" s])
      next
        case (Some e)
        with qs have s: "s = []" by auto
        from assms Pair Inr h Some have "match_except e w2 = (r, w')"
          by (simp add: match_iteration_def)
        then show ?thesis using qs q0 w1 qq s by (intro after [of e w2 "q0 @ q"]) simp_all
      qed
    qed
  qed
qed

lemma game_loop_trace:
  "\<exists>evs. trace (snd (game_loop cb inbox w)) = trace w @ evs \<and> sends_spaced True evs
         \<and> (running w \<longrightarrow> (\<exists>evs'. evs = Receive # evs'))"
proof (induction inbox arbitrary: w)
  case Nil
  show ?case by (simp add: trace_emit)
next
  case (Cons x rest)
  show ?case
  proof (cases "running w")
    case False
    then show ?thesis by simp
  next
    case True
    obtain r w1 where it: "match_iteration cb x w = (r, w1)"
      by (cases "match_iteration cb x w")
    from iteration_trace [OF it] obtain q s where
      qs: "trace w1 = trace w @ Receive # q @ s" "quiet q" "s = [] \<or> (\<exists>m. s = [Send m])"
      by blast
    obtain evs where evs: "trace (snd (game_loop cb rest w1)) = trace w1 @ evs"
        "sends_spaced True evs"
      using Cons.IH by blast
    have spaced: "sends_spaced True (Receive # q @ s @ evs)"
      using qs evs(2) by (auto simp: sends_spaced_quiet sends_spaced_weaken)
    have spaced0: "sends_spaced True (Receive # q @ s)"
      using qs by (auto simp: sends_spaced_quiet [of q _ "[Send m]" for m]
          sends_spaced_quiet [of q _ "[]", simplified])
    show ?thesis
    proof (cases r)
      case Continue
      with True it have "game_loop cb (x # rest) w = game_loop cb rest w1" by simp
      with evs qs spaced show ?thesis
        by (intro exI [of _ "Receive # q @ s @ evs"]) simp
    next
      case Break
      with True it have "game_loop cb (x # rest) w = (None, w1)" by simp
      with qs spaced0 show ?thesis
        by (intro exI [of _ "Receive # q @ s"]) simp
    next
      case (Raise e)
      with True it have "game_loop cb (x # rest) w = (Some e, w1)" by simp
      with qs spaced0 show ?thesis
        by (intro exI [of _ "Receive # q @ s"]) simp
    qed
  qed
qed

subsection \<open>What the game loop leaves unchanged, and where it gets to\<close>









lemma foldl_trace_eq:
  "foldl (\<lambda>w' v. w'\<lparr>trace := trace w' @ [f v]\<rparr>) w vs = w\<lparr>trace := trace w @ map f vs\<rparr>"
  by (induction vs arbitrary: w) simp_all





subsection \<open>The events of the queue session\<close>

lemma extends_refl: "extends w w"
  by (simp add: extends_def)

lemma extends_trans: "extends w w1 \<Longrightarrow> extends w1 w2 \<Longrightarrow> extends w w2"
  by (auto simp: extends_def)

lemma extends_emit: "extends w w1 \<Longrightarrow> extends w (emit e w1)"
  by (auto simp: extends_def emit_def)

lemma emit_fields:
  "credentials (emit e w) = credentials w" "running (emit e w) = running w"
  "queue_conns (emit e w) = queue_conns w" "match_conns (emit e w) = match_conns w"
  "join_replies (emit e w) = join_replies w" "auto_queue (emit e w) = auto_queue w"
  by (simp_all add: emit_def)

lemma extends_update:
  "extends w (u\<lparr>queue_conns := qs\<rparr>) = extends w u"
  "extends w (u\<lparr>match_conns := ms\<rparr>) = extends w u"
  "extends w (u\<lparr>join_replies := js\<rparr>) = extends w u"
  "extends w (u\<lparr>ws := s\<rparr>) = extends w u"
  "extends w (u\<lparr>match_info := mi\<rparr>) = extends w u"
  "extends w (u\<lparr>matches_played := n\<rparr>) = extends w u"
  by (simp_all add: extends_def)









subsection \<open>The events of a match and of a turn of the lifecycle loop\<close>

lemma game_loop_extends: "extends w (snd (game_loop cb inbox w))"
  using game_loop_trace [of cb inbox w] by (auto simp: extends_def)

lemma match_connection_extends: "extends w (snd (match_connection cb mid w))"
proof -
  have w1: "extends w (emit (Connect (MatchChannel mid)) w)"
    by (intro extends_emit extends_refl)
  show ?thesis
  proof (cases "match_conns w")
    case Nil
    with w1 show ?thesis by (simp add: match_connection_def Let_def emit_fields)
  next
    case (Cons cn cs)
    show ?thesis
    proof (cases cn)
      case (Refused e)
      with Cons w1 show ?thesis
        by (simp add: match_connection_def Let_def emit_fields extends_update)
    next
      case (Accepted inbox)
      let ?w2 = "(emit (Connect (MatchChannel mid)) w)
                   \<lparr>match_conns := cs, ws := Some (MatchChannel mid)\<rparr>"
      have w2: "extends w ?w2" using w1 by (simp add: extends_update)
      show ?thesis
      proof (cases "credentials ?w2")
        case None
        with Cons Accepted w2 show ?thesis
          by (simp add: match_connection_def Let_def emit_fields extends_emit)
      next
        case (Some c)
        have "extends w (emit (Send (identify_msg c)) ?w2)"
          using w2 by (rule extends_emit)
        then have "extends w (snd (game_loop cb inbox (emit (Send (identify_msg c)) ?w2)))"
          using game_loop_extends extends_trans by blast
        with Cons Accepted Some show ?thesis
          by (auto simp: match_connection_def Let_def emit_fields extends_emit
              split: prod.split)
      qed
    qed
  qed
qed









lemma play_match_starts:
  assumes "credentials w = Some c" and "extract_match_info c md = Inr mi"
  shows "\<exists>evs. trace (snd (play_match cb md w)) = trace w @ Call_on_match_start mi # evs"
proof -
  let ?w1 = "on_match_start mi (w\<lparr>match_info := Some mi\<rparr>)"
  have t1: "trace ?w1 = trace w @ Call_on_match_start mi
      # [Log INFO ''Match started'' [match_map_name mi, faction mi, opponent mi]]"
    by (simp add: on_match_start_def emit_def)
  have "extends ?w1 (snd (match_connection cb (match_id mi) ?w1))"
    by (rule match_connection_extends)
  with assms have "extends ?w1 (snd (play_match cb md w))"
    by (auto simp: play_match_def Let_def extends_update extends_emit
        split: prod.split option.split)
  with t1 show ?thesis by (auto simp: extends_def)
qed

section \<open>The match session\<close>



text \<open>
  C5: when a receive of the game loop times out, the iteration sends one \<^verbatim>\<open>get_state\<close>
  message tagged with the agent id, does nothing else and goes on to the next iteration;
  the next event of the session after the probe is its next receive.
\<close>

theorem receive_timeout_probe:
  assumes "credentials w = Some c" and "running w"
  shows "match_iteration cb (sg, Fails TimeoutError) w
           = (Continue, emit (Send (get_state_msg c)) (await_recv sg w))
         \<and> (\<exists>evs. trace (snd (game_loop cb ((False, Fails TimeoutError) # rest) w))
                = trace w @ [Receive, Send (get_state_msg c), Receive] @ evs)"
proof
  show it: "match_iteration cb (sg, Fails TimeoutError) w
           = (Continue, emit (Send (get_state_msg c)) (await_recv sg w))" for sg
    using assms(1)
    by (simp add: match_iteration_def recv_json_def match_except_def await_recv_credentials)
  define w1 where "w1 = emit (Send (get_state_msg c)) (await_recv False w)"
  have run: "running w1" and tr: "trace w1 = trace w @ [Receive, Send (get_state_msg c)]"
    using assms(2) by (simp_all add: w1_def await_recv_def emit_def)
  have "game_loop cb ((False, Fails TimeoutError) # rest) w = game_loop cb rest w1"
    using assms(2) it [of False] by (simp add: w1_def)
  moreover obtain evs where "trace (snd (game_loop cb rest w1)) = trace w1 @ Receive # evs"
    using game_loop_trace [of cb rest w1] run by auto
  ultimately show "\<exists>evs. trace (snd (game_loop cb ((False, Fails TimeoutError) # rest) w))
                = trace w @ [Receive, Send (get_state_msg c), Receive] @ evs"
    using tr by simp
qed

theorem receive_timeout_probe_witness:
  "match_iteration (\<lambda>g. Inr []) (False, Fails TimeoutError) (new_world ''Bot'' ''k1'' ''a1'' True [] [] [])
     = (Continue, (new_world ''Bot'' ''k1'' ''a1'' True [] [] [])
          \<lparr>trace := [Receive, Send (JObj [(''type'', JStr ''get_state''), (''agent_id'', JStr ''a1'')])]\<rparr>)
   \<and> (\<exists>evs. trace (snd (game_loop (\<lambda>g. Inr []) [(False, Fails TimeoutError), (False, Fails TimeoutError)]
                  (new_world ''Bot'' ''k1'' ''a1'' True [] [] [])))
         = [Receive, Send (JObj [(''type'', JStr ''get_state''), (''agent_id'', JStr ''a1'')]), Receive] @ evs)"
  using receive_timeout_probe [of "new_world ''Bot'' ''k1'' ''a1'' True [] [] []"
      "\<lparr> agent_id = ''a1'', name = ''Bot'', api_key = ''k1'', elo = 1200 \<rparr>"
      "\<lambda>g. Inr []" False "[(False, Fails TimeoutError)]"]
  by (simp add: new_world_def get_state_msg_def await_recv_def emit_def del: game_loop.simps)

text \<open>
  C7: a \<^verbatim>\<open>game_end\<close> message with result \<^verbatim>\<open>victory\<close> received by the game loop ends the
  loop without an exception; \<^verbatim>\<open>wins\<close> has grown by one, \<^verbatim>\<open>losses\<close> is unchanged, the
  message is stored as \<^verbatim>\<open>match_result\<close> and the match-end hook has been called on it.
\<close>

theorem game_end_victory:
  assumes "credentials w = Some c" and "running w"
    and "map_of d ''type'' = Some (JStr ''game_end'')"
    and "map_of d ''result'' = Some (JStr ''victory'')"
  shows "game_loop cb ((sg, Text (JObj d)) # rest) w =
     (None, (await_recv sg w)\<lparr>match_result := Some (JObj d), wins := wins w + 1,
        trace := trace (await_recv sg w)
           @ [Call_on_match_end (JObj d), Log INFO ''Match ended'' [JStr ''victory'']]\<rparr>)"
  using assms
  by (simp add: match_iteration_def recv_json_def handle_match_message_def on_match_end_def
      await_recv_def shutdown_def emit_def Let_def)

theorem game_end_victory_witness:
  "game_loop (\<lambda>g. Inr [])
      [(False, Text (JObj [(''type'', JStr ''game_end''), (''result'', JStr ''victory'')]))]
      (new_world ''Bot'' ''k1'' ''a1'' True [] [] []) =
   (None, (new_world ''Bot'' ''k1'' ''a1'' True [] [] [])
      \<lparr>match_result := Some (JObj [(''type'', JStr ''game_end''), (''result'', JStr ''victory'')]),
       wins := 1,
       trace := [Receive,
                 Call_on_match_end (JObj [(''type'', JStr ''game_end''), (''result'', JStr ''victory'')]),
                 Log INFO ''Match ended'' [JStr ''victory'']]\<rparr>)"
  using game_end_victory [of "new_world ''Bot'' ''k1'' ''a1'' True [] [] []"
      "\<lparr> agent_id = ''a1'', name = ''Bot'', api_key = ''k1'', elo = 1200 \<rparr>"
      "[(''type'', JStr ''game_end''), (''result'', JStr ''victory'')]"
      "\<lambda>g. Inr []" False "[]"]
  by (simp add: new_world_def await_recv_def emit_def)

text \<open>
  C8: an \<^verbatim>\<open>order_violations\<close> message carrying the list \<open>vs\<close> makes the iteration call
  the violation hook once, on the whole list (the hook logs one warning for each entry);
  \<^verbatim>\<open>wins\<close>, \<^verbatim>\<open>losses\<close>, \<^verbatim>\<open>match_result\<close> and \<^verbatim>\<open>game_state\<close> are unchanged and
  the game loop goes on with the next frame.
\<close>

theorem violations_reported:
  assumes "credentials w = Some c" and "running w"
    and "map_of d ''type'' = Some (JStr ''order_violations'')"
    and "map_of d ''violations'' = Some (JList vs)"
    and "w' = (await_recv sg w)\<lparr>trace := trace (await_recv sg w)
           @ Call_on_violation (JList vs) # map (\<lambda>v. Log WARNING ''Order violation'' [v]) vs\<rparr>"
  shows "match_iteration cb (sg, Text (JObj d)) w = (Continue, w')
       \<and> game_loop cb ((sg, Text (JObj d)) # rest) w = game_loop cb rest w'
       \<and> wins w' = wins w \<and> losses w' = losses w
       \<and> match_result w' = match_result w \<and> game_state w' = game_state w"
proof -
  have "match_iteration cb (sg, Text (JObj d)) w = (Continue, w')"
    using assms(1,3,4,5)
    by (simp add: match_iteration_def recv_json_def handle_match_message_def on_violation_def
      await_recv_credentials foldl_trace_eq Let_def emit_def)
  moreover have "wins w' = wins w \<and> losses w' = losses w
       \<and> match_result w' = match_result w \<and> game_state w' = game_state w"
    by (simp add: assms(5) await_recv_def shutdown_def emit_def Let_def)
  ultimately show ?thesis using assms(2) by simp
qed

theorem violations_reported_witness:
  "match_iteration (\<lambda>g. Inr [])
      (False, Text (JObj [(''type'', JStr ''order_violations''),
                          (''violations'', JList [JStr ''unit 7 is not yours'', JStr ''cannot build there''])]))
      (new_world ''Bot'' ''k1'' ''a1'' True [] [] []) =
   (Continue, (new_world ''Bot'' ''k1'' ''a1'' True [] [] [])
      \<lparr>trace := [Receive,
                 Call_on_violation (JList [JStr ''unit 7 is not yours'', JStr ''cannot build there'']),
                 Log WARNING ''Order violation'' [JStr ''unit 7 is not yours''],
                 Log WARNING ''Order violation'' [JStr ''cannot build there'']]\<rparr>)"
  using violations_reported [of "new_world ''Bot'' ''k1'' ''a1'' True [] [] []"
      "\<lparr> agent_id = ''a1'', name = ''Bot'', api_key = ''k1'', elo = 1200 \<rparr>"
      "[(''type'', JStr ''order_violations''),
        (''violations'', JList [JStr ''unit 7 is not yours'', JStr ''cannot build there''])]"
      "[JStr ''unit 7 is not yours'', JStr ''cannot build there'']"
      "(new_world ''Bot'' ''k1'' ''a1'' True [] [] [])
      \<lparr>trace := [Receive,
                 Call_on_violation (JList [JStr ''unit 7 is not yours'', JStr ''cannot build there'']),
                 Log WARNING ''Order violation'' [JStr ''unit 7 is not yours''],
                 Log WARNING ''Order violation'' [JStr ''cannot build there'']]\<rparr>"
      False "\<lambda>g. Inr []" "[]"]
  by (simp add: new_world_def await_recv_def emit_def)




section \<open>The queue session and the lifecycle loop\<close>





text \<open>
  C6: for an agent whose credentials carry the agent id \<^verbatim>\<open>a1\<close>, the queue message of
  scenario B makes the waiting loop return its pairing data, from which \<^verbatim>\<open>_play_match\<close>
  builds the descriptor with match id \<^verbatim>\<open>m1\<close>, map name \<^verbatim>\<open>Tundra\<close>, faction
  \<^verbatim>\<open>soviet\<close> and opponent \<^verbatim>\<open>Foe\<close>, and hands it to the match-start hook.
\<close>

theorem scenario_B_descriptor:
  assumes "credentials w = Some c" and "agent_id c = ''a1''"
  shows "fst (queue_iteration (sg, Text scenario_B_msg) w) = Inr (Some scenario_B_data)
       \<and> extract_match_info c scenario_B_data =
           Inr \<lparr> match_id = JStr ''m1'', match_map_name = JStr ''Tundra'',
                 faction = JStr ''soviet'', opponent = JStr ''Foe'', settings = JObj [] \<rparr>
       \<and> (\<exists>evs. trace (snd (play_match cb scenario_B_data w)) = trace w @
             Call_on_match_start
               \<lparr> match_id = JStr ''m1'', match_map_name = JStr ''Tundra'',
                 faction = JStr ''soviet'', opponent = JStr ''Foe'', settings = JObj [] \<rparr> # evs)"
proof -
  have q: "fst (queue_iteration (sg, Text scenario_B_msg) w) = Inr (Some scenario_B_data)"
    by (simp add: queue_iteration_def recv_json_def scenario_B_msg_def Let_def)
  have x: "extract_match_info c scenario_B_data =
           Inr \<lparr> match_id = JStr ''m1'', match_map_name = JStr ''Tundra'',
                 faction = JStr ''soviet'', opponent = JStr ''Foe'', settings = JObj [] \<rparr>"
    using assms(2) by (simp add: extract_match_info_def scenario_B_data_def andThen_def)
  from q x play_match_starts [OF assms(1) x, of cb] show ?thesis by simp
qed

theorem scenario_B_descriptor_witness:
  "fst (queue_iteration (False, Text scenario_B_msg) (new_world ''Bot'' ''k1'' ''a1'' True [] [] []))
     = Inr (Some scenario_B_data)
   \<and> extract_match_info \<lparr> agent_id = ''a1'', name = ''Bot'', api_key = ''k1'', elo = 1200 \<rparr>
        scenario_B_data =
           Inr \<lparr> match_id = JStr ''m1'', match_map_name = JStr ''Tundra'',
                 faction = JStr ''soviet'', opponent = JStr ''Foe'', settings = JObj [] \<rparr>
   \<and> (\<exists>evs. trace (snd (play_match (\<lambda>g. Inr []) scenario_B_data
                (new_world ''Bot'' ''k1'' ''a1'' True [] [] []))) =
             Call_on_match_start
               \<lparr> match_id = JStr ''m1'', match_map_name = JStr ''Tundra'',
                 faction = JStr ''soviet'', opponent = JStr ''Foe'', settings = JObj [] \<rparr> # evs)"
proof -
  let ?w = "new_world ''Bot'' ''k1'' ''a1'' True [] [] []"
  let ?c = "\<lparr> agent_id = ''a1'', name = ''Bot'', api_key = ''k1'', elo = 1200 \<rparr>"
  have c: "credentials ?w = Some ?c" by (simp add: new_world_def)
  have a: "agent_id ?c = ''a1''" by simp
  have t: "trace ?w = []" by (simp add: new_world_def)
  from scenario_B_descriptor [OF c a, of False "\<lambda>g. Inr []"] show ?thesis
    unfolding t by simp
qed

end
